theory Spec2Isabelle
  imports Main "HOL-Library.Sublist" "HOL-Library.Word"
begin

section \<open>Data model of package eye (trail.go, trail\_options.go)\<close>

text \<open>
  Errors are represented by their message (the string \<open>err.Error()\<close> returns). A
  \<open>time.Time\<close> is an integer count of nanoseconds, a \<open>time.Duration\<close> is an int64 count
  of nanoseconds.
\<close>

type_synonym error = string
type_synonym time = int
type_synonym Duration = int

definition maxDuration :: Duration where
  "maxDuration = 2 ^ 63 - 1"

definition minDuration :: Duration where
  "minDuration = - (2 ^ 63)"

text \<open>\<open>t.Sub(u)\<close>: the difference, saturated at the largest and smallest Duration.\<close>

definition time_Sub :: "time \<Rightarrow> time \<Rightarrow> Duration" where
  "time_Sub t u =
     (let d = t - u
      in if d > maxDuration then maxDuration
         else if d < minDuration then minDuration
         else d)"

text \<open>
  A compiled \<open>*regexp.Regexp\<close> is used through \<open>MatchString\<close> only, so it is represented
  by the set of strings it matches; a nil pointer is \<open>None\<close>.
\<close>

type_synonym Regexp = "string \<Rightarrow> bool"

definition MatchString :: "Regexp \<Rightarrow> string \<Rightarrow> bool" where
  "MatchString re s = re s"

text \<open>The logger records the calls made on it, in order.\<close>

datatype log_entry = Infoln string | Errorln string | Debugln string

record TrailOptions =
  PollChanges :: bool
  FileReg :: "Regexp option"
  FileIgnoreReg :: "Regexp option"
  FileIgnoreDuration :: Duration
  FileFollowDuration :: Duration
  PathReg :: "Regexp option"

text \<open>\<open>Line\<close> of trail.go, and the line record the tailing unit sends on its channel.\<close>

record Line =
  Path :: string
  Text :: string
  Time :: time
  Err :: "error option"

record tail_Line =
  tail_Text :: string
  tail_Time :: time
  tail_Err :: "error option"

text \<open>
  \<open>tail.Config\<close> as followFile fills it (the discarding logger is left out) and the
  \<open>*tail.Tail\<close> that \<open>tail.TailFile\<close> returns: the file name, the configuration it was
  opened with and the identity of the object (its address).
\<close>

record SeekInfo =
  Offset :: int
  Whence :: int

record Config =
  CfgFollow :: bool
  Location :: "SeekInfo option"
  Poll :: bool

record Tail =
  Filename :: string
  Cfg :: Config
  addr :: nat

text \<open>
  What the operating system answers at one moment: \<open>os.Stat\<close>, \<open>time.Now\<close> and whether
  \<open>tail.TailFile\<close> can open a path.
\<close>

record FileInfo =
  Name :: string
  ModTime :: time

record env =
  Stat :: "string \<Rightarrow> error + FileInfo"
  Now :: time
  TailFile :: "string \<Rightarrow> error option"

text \<open>
  The Trail together with everything its methods act on: the slice \<open>t.tails\<close>, the
  addresses of the tailers on which \<open>Stop\<close> was called (in call order), the logger's
  calls, the handler's invocations with the value each returned, the next free address,
  whether the watcher was ended, whether \<open>Watch\<close> was called, whether the goroutine of
  the event loop is waiting in its \<open>select\<close> (it is the only receiver of the channel
  \<open>t.done\<close>), and whether the scheduler of \<open>AddUnfollower\<close> is running.
  The goroutines are run one at a time: each operation below runs to its end before the
  next one starts.
\<close>

record Trail =
  options :: TrailOptions
  tails :: "Tail list"
  stopped :: "nat list"
  log :: "log_entry list"
  calls :: "(Line \<times> error option) list"
  fresh :: nat
  watcher_ended :: bool
  watching :: bool
  looping :: bool
  sweeping :: bool

definition logln :: "log_entry \<Rightarrow> Trail \<Rightarrow> Trail" where
  "logln m t = t\<lparr>log := log t @ [m]\<rparr>"

section \<open>filepath.Dir and filepath.Base on slash-separated paths\<close>

definition sep :: char where
  "sep = CHR ''/''"

fun split_sep :: "string \<Rightarrow> string list" where
  "split_sep [] = [[]]"
| "split_sep (c # cs) =
     (if c = sep then [] # split_sep cs
      else (case split_sep cs of [] \<Rightarrow> [[c]] | e # es \<Rightarrow> (c # e) # es))"

text \<open>
  One element of the path in \<open>filepath.Clean\<close>; the stack holds the kept elements, the
  last one first.
\<close>

definition clean_step :: "bool \<Rightarrow> string list \<Rightarrow> string \<Rightarrow> string list" where
  "clean_step rooted st e =
     (if e = [] \<or> e = ''.'' then st
      else if e = ''..'' then
        (case st of
           [] \<Rightarrow> if rooted then [] else [''..'']
         | el # rest \<Rightarrow> if el = ''..'' then ''..'' # st else rest)
      else e # st)"

fun join_sep :: "string list \<Rightarrow> string" where
  "join_sep [] = []"
| "join_sep [e] = e"
| "join_sep (e # es) = e @ sep # join_sep es"

definition Clean :: "string \<Rightarrow> string" where
  "Clean path =
     (let rooted = (path \<noteq> [] \<and> hd path = sep);
          st = foldl (clean_step rooted) [] (split_sep path);
          out = (if rooted then [sep] else []) @ join_sep (rev st)
      in if out = [] then ''.'' else out)"

definition Dir :: "string \<Rightarrow> string" where
  "Dir path = Clean (rev (dropWhile (\<lambda>c. c \<noteq> sep) (rev path)))"

definition Base :: "string \<Rightarrow> string" where
  "Base path =
     (if path = [] then ''.''
      else
        (let p = rev (dropWhile (\<lambda>c. c = sep) (rev path));
             b = rev (takeWhile (\<lambda>c. c \<noteq> sep) (rev p))
         in if b = [] then [sep] else b))"

section \<open>The ignore policy\<close>

definition isOldToIgnore :: "env \<Rightarrow> string \<Rightarrow> Trail \<Rightarrow> bool \<times> Trail" where
  "isOldToIgnore e path t =
     (case Stat e path of
        Inr info \<Rightarrow> (time_Sub (Now e) (ModTime info) > FileIgnoreDuration (options t), t)
      | Inl err \<Rightarrow> (False, logln (Errorln (''failed to get file info. '' @ err)) t))"

text \<open>
  \<open>ignore\<close>: the operands of \<open>||\<close> are evaluated from the left and the evaluation stops at
  the first true one, so \<open>isOldToIgnore\<close> (and its log line) runs only when the three
  regular-expression tests are false.
\<close>

definition ignore :: "env \<Rightarrow> Trail \<Rightarrow> string \<Rightarrow> bool \<times> Trail" where
  "ignore e t path =
     (if (case PathReg (options t) of None \<Rightarrow> False
          | Some r \<Rightarrow> \<not> MatchString r (Dir path)) then (True, t)
      else if (case FileReg (options t) of None \<Rightarrow> False
          | Some r \<Rightarrow> \<not> MatchString r (Base path)) then (True, t)
      else if (case FileIgnoreReg (options t) of None \<Rightarrow> False
          | Some r \<Rightarrow> MatchString r (Base path)) then (True, t)
      else isOldToIgnore e path t)"

section \<open>Constructors\<close>

text \<open>
  \<open>NewTrail\<close> leaves every option but the logger at its zero value;
  \<open>NewTrailWithOptions\<close> copies the caller's options. The watcher and the channel are
  represented by the three flags of the state.
\<close>

definition new_state :: "TrailOptions \<Rightarrow> Trail" where
  "new_state opts =
     \<lparr>options = opts, tails = [], stopped = [], log = [], calls = [], fresh = 0,
      watcher_ended = False, watching = False, looping = False, sweeping = False\<rparr>"

definition NewTrail :: Trail where
  "NewTrail =
     new_state \<lparr>PollChanges = False, FileReg = None, FileIgnoreReg = None,
       FileIgnoreDuration = 0, FileFollowDuration = 0, PathReg = None\<rparr>"

definition NewTrailWithOptions :: "TrailOptions \<Rightarrow> Trail" where
  "NewTrailWithOptions opts =
     new_state \<lparr>PollChanges = PollChanges opts, FileReg = FileReg opts,
       FileIgnoreReg = FileIgnoreReg opts, FileIgnoreDuration = FileIgnoreDuration opts,
       FileFollowDuration = FileFollowDuration opts, PathReg = PathReg opts\<rparr>"

section \<open>Followers\<close>

text \<open>
  \<open>followFile\<close>, up to the point where its goroutine has appended the new tailer to
  \<open>t.tails\<close>: the two log lines, the configuration chosen by \<open>isNew\<close>, and the early
  return (nothing appended) when \<open>tail.TailFile\<close> fails. The goroutine's loop over the
  tailer's lines is \<open>followFile_lines\<close> below.
\<close>

definition tail_config :: "bool \<Rightarrow> bool \<Rightarrow> Config" where
  "tail_config isNew poll =
     (if isNew then \<lparr>CfgFollow = True, Location = None, Poll = poll\<rparr>
      else \<lparr>CfgFollow = True, Location = Some \<lparr>Offset = 0, Whence = 2\<rparr>, Poll = poll\<rparr>)"

definition followFile :: "env \<Rightarrow> string \<Rightarrow> bool \<Rightarrow> Trail \<Rightarrow> Trail" where
  "followFile e path isNew t =
     (let t1 = logln (Debugln (''Following: '' @ path)) t;
          t2 = (if PollChanges (options t1) then logln (Debugln ''Polling enabled'') t1
                else t1)
      in case TailFile e path of
           Some err \<Rightarrow> t2
         | None \<Rightarrow>
             t2\<lparr>tails := tails t2 @
                   [\<lparr>Filename = path,
                     Cfg = tail_config isNew (PollChanges (options t2)),
                     addr = fresh t2\<rparr>],
                fresh := Suc (fresh t2)\<rparr>)"

text \<open>
  The body of \<open>for line := range current.Lines\<close>: the line is repacked and handed to the
  handler, whose result is dropped. \<open>followFile_lines\<close> is the loop over the lines the
  channel delivers before it is closed.
\<close>

definition newLine :: "string \<Rightarrow> tail_Line \<Rightarrow> Line" where
  "newLine path line =
     \<lparr>Path = path, Text = tail_Text line, Time = tail_Time line, Err = tail_Err line\<rparr>"

definition on_line :: "string \<Rightarrow> (Line \<Rightarrow> error option) \<Rightarrow> Trail \<Rightarrow> tail_Line \<Rightarrow> Trail" where
  "on_line path handler t line =
     t\<lparr>calls := calls t @ [(newLine path line, handler (newLine path line))]\<rparr>"

definition followFile_lines ::
  "string \<Rightarrow> (Line \<Rightarrow> error option) \<Rightarrow> tail_Line list \<Rightarrow> Trail \<Rightarrow> Trail" where
  "followFile_lines path handler lines t = foldl (on_line path handler) t lines"

text \<open>
  Where a tailer opened with a configuration starts reading a file of the given size:
  at the beginning without a \<open>Location\<close>, otherwise where \<open>Seek(Offset, Whence)\<close> puts a
  freshly opened file (whence 0 from the start, 1 from the current position, which is
  0, and 2 from the end).
\<close>

definition start_offset :: "Config \<Rightarrow> int \<Rightarrow> int" where
  "start_offset cfg sz =
     (case Location cfg of
        None \<Rightarrow> 0
      | Some s \<Rightarrow> if Whence s = 2 then sz + Offset s else Offset s)"

section \<open>Unfollowing\<close>

text \<open>
  \<open>append(s[:i], s[i:]...)\<close>: the first operand has length \<open>i\<close> and the capacity of
  \<open>s\<close>, so the elements of \<open>s[i:]\<close> are written in place, from index \<open>i\<close> on.
\<close>

definition go_append :: "'a list \<Rightarrow> 'a list \<Rightarrow> 'a list" where
  "go_append xs ys = xs @ ys"

text \<open>
  \<open>unfollowFile\<close>: \<open>range\<close> evaluates \<open>t.tails\<close> once, so the loop runs over the indices
  of the slice as it was on entry; the slice assigned in the body has the same backing
  array and the same length, so element \<open>i\<close> of either is the same.
\<close>

definition unfollowFile_body :: "string \<Rightarrow> Trail \<Rightarrow> nat \<Rightarrow> Trail" where
  "unfollowFile_body name t i =
     (let tl = tails t ! i
      in if Filename tl = name
         then t\<lparr>stopped := stopped t @ [addr tl],
                tails := go_append (take i (tails t)) (drop i (tails t))\<rparr>
         else t)"

definition unfollowFile :: "string \<Rightarrow> Trail \<Rightarrow> error option \<times> Trail" where
  "unfollowFile name t =
     (None, foldl (unfollowFile_body name) t [0..<length (tails t)])"

definition isOlderThanADay :: "Trail \<Rightarrow> time \<Rightarrow> time \<Rightarrow> bool" where
  "isOlderThanADay t now tm = (time_Sub now tm > FileFollowDuration (options t))"

text \<open>The file of a path exists and was last modified before the current time.\<close>

definition modified_before :: "env \<Rightarrow> string \<Rightarrow> bool" where
  "modified_before e path =
     (case Stat e path of Inr info \<Rightarrow> ModTime info < Now e | Inl err \<Rightarrow> False)"

text \<open>
  The three statements that delete element \<open>i\<close>: \<open>copy\<close> moves the elements after \<open>i\<close>
  one place down, the last slot is set to nil, and the slice is cut by one, which drops
  that slot.
\<close>

definition go_copy :: "'a list \<Rightarrow> nat \<Rightarrow> 'a list \<Rightarrow> 'a list" where
  "go_copy xs i src =
     (let n = min (length xs - i) (length src)
      in take i xs @ take n src @ drop (i + n) xs)"

definition delete_at :: "nat \<Rightarrow> 'a list \<Rightarrow> 'a list" where
  "delete_at i xs = butlast (go_copy xs i (drop (Suc i) xs))"

text \<open>
  The loop of \<open>unfollowOldFiles\<close>. \<open>w k\<close> is what the operating system answers during
  iteration \<open>k\<close>. The loop need not end: the result \<open>None\<close> stands for a call that never
  returns.
\<close>

partial_function (option) unfollowOldFiles_loop ::
  "(nat \<Rightarrow> env) \<Rightarrow> nat \<Rightarrow> nat \<Rightarrow> Trail \<Rightarrow> Trail option" where
  "unfollowOldFiles_loop w k i t =
     (if i < length (tails t) then
        (case Stat (w k) (Filename (tails t ! i)) of
           Inr info \<Rightarrow>
             if isOlderThanADay t (Now (w k)) (ModTime info)
             then unfollowOldFiles_loop w (Suc k) i
                    ((logln (Debugln (''unfollow: '' @ Name info)) t)
                       \<lparr>stopped := stopped t @ [addr (tails t ! i)],
                        tails := delete_at i (tails t)\<rparr>)
             else unfollowOldFiles_loop w (Suc k) (Suc i)
                    (logln (Debugln (''follow: '' @ Name info)) t)
         | Inl err \<Rightarrow>
             unfollowOldFiles_loop w (Suc k) i
               (logln (Errorln (''failed to get file info. '' @ err)) t))
      else Some t)"

declare unfollowOldFiles_loop.simps [code]

definition unfollowOldFiles :: "(nat \<Rightarrow> env) \<Rightarrow> Trail \<Rightarrow> (error option \<times> Trail) option" where
  "unfollowOldFiles w t =
     (case unfollowOldFiles_loop w 0 0 (logln (Debugln ''starting...unfollow old files'') t) of
        None \<Rightarrow> None
      | Some t1 \<Rightarrow>
          Some (None,
            foldl (\<lambda>s tl. logln (Debugln (''following: '' @ Filename tl)) s)
              (logln (Debugln ''unfollow completed. '') t1) (tails t1)))"




section \<open>The event loop, Follow and End\<close>

text \<open>
  A \<open>FileEvent\<close> carries a path and an \<open>fsnotify.Op\<close>, an unsigned 32-bit value with one
  bit per kind of change. The \<open>switch\<close> compares the whole value with one constant.
\<close>

type_synonym Op = "32 word"

definition Create :: Op where
  "Create = 1"

definition Write :: Op where
  "Write = 2"

definition Remove :: Op where
  "Remove = 4"

definition Rename :: Op where
  "Rename = 8"

record FileEvent =
  EvPath :: string
  EvOp :: Op

fun digits :: "nat \<Rightarrow> string" where
  "digits n =
     (if n < 10 then [char_of (48 + n)]
      else digits (n div 10) @ [char_of (48 + n mod 10)])"

definition Itoa :: "int \<Rightarrow> string" where
  "Itoa i = (if i < 0 then CHR ''-'' # digits (nat (- i)) else digits (nat i))"

text \<open>The branch \<open>case event := <-events\<close> of the loop's \<open>select\<close>.\<close>

definition on_event :: "env \<Rightarrow> Trail \<Rightarrow> FileEvent \<Rightarrow> Trail" where
  "on_event e t event =
     (case ignore e t (EvPath event) of
        (ig, t1) \<Rightarrow>
          if ig then t1
          else if EvOp event = Create then
            followFile e (EvPath event) True
              (logln (Debugln (''Created: '' @ EvPath event)) t1)
          else if EvOp event = Remove then
            snd (unfollowFile (EvPath event)
              (logln (Debugln (''Removed: '' @ EvPath event)) t1))
          else if EvOp event = Rename then
            logln (Debugln (''Renamed: '' @ EvPath event)) t1
          else if EvOp event = Write then
            logln (Debugln (''Write: '' @ EvPath event)) t1
          else
            logln (Debugln (''Event '' @ Itoa (uint (EvOp event)) @ '': '' @ EvPath event)) t1)"


text \<open>The loop while it runs, on the events the watcher sends, each with the answers of
  the operating system at that moment.\<close>

definition event_loop :: "(env \<times> FileEvent) list \<Rightarrow> Trail \<Rightarrow> Trail" where
  "event_loop evs t = foldl (\<lambda>s (e, event). on_event e s event) t evs"

text \<open>The first loop of \<open>Follow\<close>, over the files of the initial listing; \<open>w k\<close> is what
  the operating system answers during iteration \<open>k\<close>.\<close>

fun follow_files :: "(nat \<Rightarrow> env) \<Rightarrow> nat \<Rightarrow> string list \<Rightarrow> Trail \<Rightarrow> Trail" where
  "follow_files w k [] t = t"
| "follow_files w k (file # files) t =
     (case ignore (w k) t file of
        (ig, t1) \<Rightarrow>
          if ig then follow_files w (Suc k) files t1
          else follow_files w (Suc k) files (followFile (w k) file False t1))"

text \<open>
  \<open>Follow\<close>, given the result of \<open>t.watcher.Walk()\<close>. After the listing the goroutine of
  the event loop is started and \<open>Watch\<close> is called.
\<close>

definition Follow ::
  "(nat \<Rightarrow> env) \<Rightarrow> error + string list \<Rightarrow> Trail \<Rightarrow> error option \<times> Trail" where
  "Follow w walk t =
     (let t1 = logln (Infoln ''Sauron is now watching'') t
      in case walk of
           Inl err \<Rightarrow> (Some err, logln (Errorln ''Failed to walk directory'') t1)
         | Inr files \<Rightarrow>
             (None, (follow_files w 0 files t1)\<lparr>looping := True, watching := True\<rparr>))"


section \<open>Example inputs\<close>

text \<open>
  The regular expressions \<open>/app/logs\<close>, \<open>\.log$\<close> and \<open>\.tmp$\<close> of the policy example:
  \<open>MatchString\<close> looks for a match anywhere in the string, and \<open>$\<close> is the end of the text.
\<close>

definition re_app_logs :: Regexp where
  "re_app_logs s = sublist ''/app/logs'' s"

definition re_dot_log :: Regexp where
  "re_dot_log s = suffix ''.log'' s"

definition re_dot_tmp :: Regexp where
  "re_dot_tmp s = suffix ''.tmp'' s"

definition policy_example :: "Trail \<Rightarrow> Trail" where
  "policy_example t =
     t\<lparr>options := (options t)\<lparr>PathReg := Some re_app_logs, FileReg := Some re_dot_log,
          FileIgnoreReg := Some re_dot_tmp\<rparr>\<rparr>"

text \<open>Seven days, the duration the command line falls back to, in nanoseconds.\<close>

definition week :: Duration where
  "week = 7 * 24 * 3600 * 1000000000"

definition week_options :: TrailOptions where
  "week_options =
     \<lparr>PollChanges = False, FileReg = None, FileIgnoreReg = None,
      FileIgnoreDuration = week, FileFollowDuration = week, PathReg = None\<rparr>"

text \<open>A moment at which every file exists, was modified at the given time, and opens.\<close>

definition env_at :: "time \<Rightarrow> time \<Rightarrow> env" where
  "env_at now mtime =
     \<lparr>Stat = (\<lambda>p. Inr \<lparr>Name = Base p, ModTime = mtime\<rparr>), Now = now,
      TailFile = (\<lambda>p. None)\<rparr>"

text \<open>A moment at which no file exists: \<open>os.Stat\<close> and \<open>tail.TailFile\<close> fail.\<close>

definition env_gone :: "time \<Rightarrow> env" where
  "env_gone now =
     \<lparr>Stat = (\<lambda>p. Inl ''no such file or directory''), Now = now,
      TailFile = (\<lambda>p. Some ''no such file or directory'')\<rparr>"

definition current_log :: string where
  "current_log = ''/var/log/app/current.log''"

definition created :: "string \<Rightarrow> FileEvent" where
  "created p = \<lparr>EvPath = p, EvOp = Create\<rparr>"

definition removed :: "string \<Rightarrow> FileEvent" where
  "removed p = \<lparr>EvPath = p, EvOp = Remove\<rparr>"

text \<open>A trail with the week-long thresholds, and the same trail after a \<open>Create\<close> event
  for \<open>current.log\<close>, modified one nanosecond before.\<close>

definition week_trail :: Trail where
  "week_trail = NewTrailWithOptions week_options"

definition following_current :: Trail where
  "following_current = on_event (env_at 2 1) week_trail (created current_log)"

text \<open>A line of the tailing unit that carries an error.\<close>

definition error_line :: tail_Line where
  "error_line = \<lparr>tail_Text = [], tail_Time = 3, tail_Err = Some ''tail: read failed''\<rparr>"

text \<open>
  Trails whose \<open>FileFollowDuration\<close> is 0: one that follows \<open>current.log\<close> after a
  \<open>Create\<close> event, and one that follows \<open>a.log\<close> and \<open>b.log\<close> after their \<open>Create\<close>
  events.
\<close>

definition sweep_options :: TrailOptions where
  "sweep_options = week_options\<lparr>FileFollowDuration := 0\<rparr>"

definition sweep_trail :: Trail where
  "sweep_trail =
     on_event (env_at 2 1) (NewTrailWithOptions sweep_options) (created current_log)"

definition a_log :: string where
  "a_log = ''/app/logs/a.log''"

definition b_log :: string where
  "b_log = ''/app/logs/b.log''"

definition two_trail :: Trail where
  "two_trail =
     event_loop [(env_at 2 1, created a_log), (env_at 2 1, created b_log)]
       (NewTrailWithOptions sweep_options)"

text \<open>A moment at which exactly the listed files exist, each with its modification
  time.\<close>

definition env_files :: "time \<Rightarrow> (string \<times> time) list \<Rightarrow> env" where
  "env_files now files =
     \<lparr>Stat = (\<lambda>p. case map_of files p of
                 None \<Rightarrow> Inl ''no such file or directory''
               | Some tm \<Rightarrow> Inr \<lparr>Name = Base p, ModTime = tm\<rparr>),
      Now = now,
      TailFile = (\<lambda>p. case map_of files p of
                 None \<Rightarrow> Some ''no such file or directory''
               | Some tm \<Rightarrow> None)\<rparr>"





text \<open>The trail that followed \<open>current.log\<close>, after the file was deleted and its \<open>Remove\<close>
  event processed.\<close>

definition after_remove :: Trail where
  "after_remove = on_event (env_gone 3) following_current (removed current_log)"

section \<open>The ignore policy: proofs\<close>

lemma Dir_a_tmp: "Dir ''/app/logs/a.tmp'' = ''/app/logs''"
  by code_simp

lemma Dir_a_log: "Dir ''/app/logs/a.log'' = ''/app/logs''"
  by code_simp

lemma Dir_b_log: "Dir ''/other/b.log'' = ''/other''"
  by code_simp

lemma Base_a_tmp: "Base ''/app/logs/a.tmp'' = ''a.tmp''"
  by code_simp

lemma Base_a_log: "Base ''/app/logs/a.log'' = ''a.log''"
  by code_simp

lemma re_facts:
  "re_app_logs ''/app/logs''" "\<not> re_app_logs ''/other''"
  "re_dot_log ''a.log''" "\<not> re_dot_log ''a.tmp''"
  "re_dot_tmp ''a.tmp''" "\<not> re_dot_tmp ''a.log''"
  by code_simp+

lemma fst_isOldToIgnore:
  "fst (isOldToIgnore e path t) =
     (\<exists>info. Stat e path = Inr info \<and>
        time_Sub (Now e) (ModTime info) > FileIgnoreDuration (options t))"
  by (cases "Stat e path") (simp_all add: isOldToIgnore_def)

lemmas policy_simps =
  ignore_def policy_example_def MatchString_def fst_isOldToIgnore re_facts

text \<open>
  Claim C5, as the code has it. \<open>ignore\<close> answers true exactly when one of the four
  rules holds: the path expression is set and does not match the directory of the path,
  the file expression is set and does not match the base name, the exclusion expression
  is set and matches the base name, or \<open>os.Stat\<close> succeeds and the time since the last
  modification exceeds \<open>FileIgnoreDuration\<close> (a failed \<open>os.Stat\<close> never makes a file old).
  The only effect on the state is the log line for a failed \<open>os.Stat\<close>, written when
  none of the three expressions decides; otherwise the state is as before.
  With the three expressions of the policy example, \<open>/app/logs/a.tmp\<close> and
  \<open>/other/b.log\<close> are ignored whatever the file system answers, and \<open>/app/logs/a.log\<close>
  is ignored exactly when the age rule holds for it.
\<close>

theorem ignore_rules:
  "(fst (ignore e t path) =
     ((\<exists>r. PathReg (options t) = Some r \<and> \<not> MatchString r (Dir path)) \<or>
      (\<exists>r. FileReg (options t) = Some r \<and> \<not> MatchString r (Base path)) \<or>
      (\<exists>r. FileIgnoreReg (options t) = Some r \<and> MatchString r (Base path)) \<or>
      (\<exists>info. Stat e path = Inr info \<and>
         time_Sub (Now e) (ModTime info) > FileIgnoreDuration (options t)))) \<and>
   snd (ignore e t path) =
     (if (\<exists>r. PathReg (options t) = Some r \<and> \<not> MatchString r (Dir path)) \<or>
         (\<exists>r. FileReg (options t) = Some r \<and> \<not> MatchString r (Base path)) \<or>
         (\<exists>r. FileIgnoreReg (options t) = Some r \<and> MatchString r (Base path))
      then t
      else case Stat e path of
             Inl err \<Rightarrow> t\<lparr>log := log t @ [Errorln (''failed to get file info. '' @ err)]\<rparr>
           | Inr info \<Rightarrow> t) \<and>
   fst (ignore e (policy_example t) ''/app/logs/a.tmp'') \<and>
   fst (ignore e (policy_example t) ''/other/b.log'') \<and>
   (fst (ignore e (policy_example t) ''/app/logs/a.log'') =
     (\<exists>info. Stat e ''/app/logs/a.log'' = Inr info \<and>
        time_Sub (Now e) (ModTime info) > FileIgnoreDuration (options t)))"
proof (intro conjI)
  show "fst (ignore e t path) =
     ((\<exists>r. PathReg (options t) = Some r \<and> \<not> MatchString r (Dir path)) \<or>
      (\<exists>r. FileReg (options t) = Some r \<and> \<not> MatchString r (Base path)) \<or>
      (\<exists>r. FileIgnoreReg (options t) = Some r \<and> MatchString r (Base path)) \<or>
      (\<exists>info. Stat e path = Inr info \<and>
         time_Sub (Now e) (ModTime info) > FileIgnoreDuration (options t)))"
    by (auto simp: ignore_def fst_isOldToIgnore split: option.splits)
  show "snd (ignore e t path) =
     (if (\<exists>r. PathReg (options t) = Some r \<and> \<not> MatchString r (Dir path)) \<or>
         (\<exists>r. FileReg (options t) = Some r \<and> \<not> MatchString r (Base path)) \<or>
         (\<exists>r. FileIgnoreReg (options t) = Some r \<and> MatchString r (Base path))
      then t
      else case Stat e path of
             Inl err \<Rightarrow> t\<lparr>log := log t @ [Errorln (''failed to get file info. '' @ err)]\<rparr>
           | Inr info \<Rightarrow> t)"
    by (auto simp: ignore_def isOldToIgnore_def logln_def split: option.splits sum.splits)
  show "fst (ignore e (policy_example t) ''/app/logs/a.tmp'')"
    by (simp add: policy_simps Dir_a_tmp Base_a_tmp)
  show "fst (ignore e (policy_example t) ''/other/b.log'')"
    by (simp add: policy_simps Dir_b_log)
  show "fst (ignore e (policy_example t) ''/app/logs/a.log'') =
     (\<exists>info. Stat e ''/app/logs/a.log'' = Inr info \<and>
        time_Sub (Now e) (ModTime info) > FileIgnoreDuration (options t))"
    by (simp add: policy_simps Dir_a_log Base_a_log)
qed

text \<open>
  The rules at concrete inputs. With the week-long threshold and a file modified one
  nanosecond ago, \<open>/app/logs/a.log\<close> is followed and the other two paths are ignored,
  and nothing is logged. When \<open>os.Stat\<close> fails, \<open>/app/logs/a.log\<close> is followed and the
  error is logged; for \<open>/app/logs/a.tmp\<close>, which the exclusion expression decides,
  \<open>os.Stat\<close> is not called and nothing is logged.
\<close>

theorem ignore_rules_witness:
  "\<not> fst (ignore (env_at 2 1) (policy_example (NewTrailWithOptions week_options))
       ''/app/logs/a.log'') \<and>
   fst (ignore (env_at 2 1) (policy_example (NewTrailWithOptions week_options))
       ''/app/logs/a.tmp'') \<and>
   fst (ignore (env_at 2 1) (policy_example (NewTrailWithOptions week_options))
       ''/other/b.log'') \<and>
   log (snd (ignore (env_at 2 1) (policy_example (NewTrailWithOptions week_options))
       ''/app/logs/a.log'')) = [] \<and>
   \<not> fst (ignore (env_gone 3) (policy_example (NewTrailWithOptions week_options))
       ''/app/logs/a.log'') \<and>
   log (snd (ignore (env_gone 3) (policy_example (NewTrailWithOptions week_options))
       ''/app/logs/a.log'')) =
     [Errorln ''failed to get file info. no such file or directory''] \<and>
   log (snd (ignore (env_gone 3) (policy_example (NewTrailWithOptions week_options))
       ''/app/logs/a.tmp'')) = []"
proof -
  let ?t = "NewTrailWithOptions week_options"
  have opts: "PathReg (options (policy_example ?t)) = Some re_app_logs"
    "FileReg (options (policy_example ?t)) = Some re_dot_log"
    "FileIgnoreReg (options (policy_example ?t)) = Some re_dot_tmp"
    "log (policy_example ?t) = []" "FileIgnoreDuration (options ?t) = week"
    by (simp_all add: policy_example_def NewTrailWithOptions_def new_state_def
        week_options_def)
  have fresh: "Stat (env_at 2 1) ''/app/logs/a.log'' =
      Inr \<lparr>Name = Base ''/app/logs/a.log'', ModTime = 1\<rparr>" "Now (env_at 2 1) = 2"
    by (simp_all add: env_at_def)
  have gone: "Stat (env_gone 3) ''/app/logs/a.log'' = Inl ''no such file or directory''"
    by (simp add: env_gone_def)
  have young: "\<not> week < time_Sub 2 1"
    by (simp add: week_def time_Sub_def maxDuration_def minDuration_def)
  note rules = opts fresh gone young MatchString_def re_facts
    Dir_a_log Base_a_log Dir_a_tmp Base_a_tmp
  show ?thesis
    using ignore_rules [of "env_at 2 1" ?t "[]"]
      ignore_rules [of "env_at 2 1" "policy_example ?t" "''/app/logs/a.log''"]
      ignore_rules [of "env_gone 3" ?t "[]"]
      ignore_rules [of "env_gone 3" "policy_example ?t" "''/app/logs/a.log''"]
      ignore_rules [of "env_gone 3" "policy_example ?t" "''/app/logs/a.tmp''"]
    by (simp add: rules)
qed

text \<open>
  Claim C5 as stated fails for \<open>/app/logs/a.log\<close>: with the three expressions of the
  example set and the age threshold left at its zero value, a file modified one
  nanosecond ago is ignored by the age rule.
\<close>

theorem ignore_example_counterexample:
  "fst (ignore (env_at 2 1) (policy_example NewTrail) ''/app/logs/a.log'')"
  by (simp add: policy_simps Dir_a_log Base_a_log env_at_def NewTrail_def new_state_def
      time_Sub_def maxDuration_def minDuration_def)

section \<open>What the operations do to the state\<close>

lemma ignore_fields [simp]:
  "tails (snd (ignore e t p)) = tails t"
  "options (snd (ignore e t p)) = options t"
  "stopped (snd (ignore e t p)) = stopped t"
  "fresh (snd (ignore e t p)) = fresh t"
  "calls (snd (ignore e t p)) = calls t"
  "looping (snd (ignore e t p)) = looping t"
  by (simp_all add: ignore_def isOldToIgnore_def logln_def split: sum.splits)

lemma followFile_tails:
  "tails (followFile e p isNew t) =
     (case TailFile e p of
        Some err \<Rightarrow> tails t
      | None \<Rightarrow> tails t @ [\<lparr>Filename = p, Cfg = tail_config isNew (PollChanges (options t)), addr = fresh t\<rparr>])"
  by (simp add: followFile_def logln_def Let_def split: option.splits)

lemma followFile_fields [simp]:
  "options (followFile e p isNew t) = options t"
  "stopped (followFile e p isNew t) = stopped t"
  "calls (followFile e p isNew t) = calls t"
  "looping (followFile e p isNew t) = looping t"
  by (simp_all add: followFile_def logln_def Let_def split: option.splits)

lemma unfollowFile_body_tails: "tails (unfollowFile_body name t i) = tails t"
  by (simp add: unfollowFile_body_def go_append_def Let_def)

lemma unfollowFile_fold:
  "n \<le> length (tails t) \<Longrightarrow>
   foldl (unfollowFile_body name) t [0..<n] =
     t\<lparr>stopped := stopped t @ map addr (filter (\<lambda>tl. Filename tl = name) (take n (tails t)))\<rparr>"
proof (induction n)
  case 0
  then show ?case by simp
next
  case (Suc n)
  then show ?case
    by (simp add: take_Suc_conv_app_nth unfollowFile_body_def go_append_def Let_def)
qed

lemma unfollowFile_eq:
  "unfollowFile name t =
     (None, t\<lparr>stopped := stopped t @ map addr (filter (\<lambda>tl. Filename tl = name) (tails t))\<rparr>)"
  by (simp add: unfollowFile_def unfollowFile_fold)


lemma on_event_Create_tails:
  "EvOp ev = Create \<Longrightarrow>
   tails (on_event e t ev) =
     (if fst (ignore e t (EvPath ev)) then tails t
      else case TailFile e (EvPath ev) of
             Some err \<Rightarrow> tails t
           | None \<Rightarrow> tails t @ [\<lparr>Filename = EvPath ev, Cfg = tail_config True (PollChanges (options t)), addr = fresh t\<rparr>])"
  by (simp add: on_event_def followFile_tails logln_def case_prod_beta split: option.splits)

lemma on_event_Remove:
  "EvOp ev = Remove \<Longrightarrow> \<not> fst (ignore e t (EvPath ev)) \<Longrightarrow>
   tails (on_event e t ev) = tails t \<and>
   stopped (on_event e t ev) = stopped t @ map addr (filter (\<lambda>tl. Filename tl = EvPath ev) (tails t))"
  by (simp add: on_event_def unfollowFile_eq logln_def Remove_def Create_def case_prod_beta)

lemma follow_files_options [simp]: "options (follow_files w k files t) = options t"
  by (induction files arbitrary: k t) (simp_all add: case_prod_beta)

lemma follow_files_tails:
  "\<exists>new. tails (follow_files w k files t) = tails t @ new \<and>
     (\<forall>tl\<in>set new. Filename tl \<in> set files \<and> Cfg tl = tail_config False (PollChanges (options t)))"
proof (induction files arbitrary: k t)
  case Nil
  then show ?case by simp
next
  case (Cons f fs)
  show ?case
  proof (cases "fst (ignore (w k) t f)")
    case True
    with Cons [of "Suc k" "snd (ignore (w k) t f)"] show ?thesis
      by (auto simp: case_prod_beta)
  next
    case False
    with Cons [of "Suc k" "followFile (w k) f False (snd (ignore (w k) t f))"] show ?thesis
      by (auto simp: case_prod_beta followFile_tails split: option.splits)
  qed
qed

lemma followFile_lines_eq:
  "followFile_lines p h ls t = t\<lparr>calls := calls t @ map (\<lambda>l. (newLine p l, h (newLine p l))) ls\<rparr>"
  unfolding followFile_lines_def
  by (induction ls arbitrary: t) (simp_all add: on_line_def)

section \<open>The sweep loop\<close>

lemma drop_length_minus_one: "xs \<noteq> [] \<Longrightarrow> drop (length xs - Suc 0) xs = [last xs]"
  by (cases xs rule: rev_cases) simp_all

lemma delete_at_eq: "i < length xs \<Longrightarrow> delete_at i xs = take i xs @ drop (Suc i) xs"
proof -
  assume i: "i < length xs"
  then have n: "min (length xs - i) (length xs - Suc i) = length xs - Suc i"
    by simp
  from i have ne: "xs \<noteq> []" by auto
  from i have "i + (length xs - Suc i) = length xs - Suc 0" by simp
  with n ne show ?thesis
    by (simp add: delete_at_def go_copy_def drop_length_minus_one butlast_append del: One_nat_def)
qed

lemma time_Sub_pos_iff: "(0 < time_Sub now tm) = (tm < now)"
  by (simp add: time_Sub_def maxDuration_def minDuration_def Let_def)

lemma indices_Suc:
  "map f (filter P [0..<Suc n]) =
     (if P 0 then [f 0] else []) @ map (\<lambda>j. f (Suc j)) (filter (\<lambda>j. P (Suc j)) [0..<n])"
proof -
  have "[0..<Suc n] = 0 # map Suc [0..<n]"
    by (simp add: upt_conv_Cons map_Suc_upt del: upt_Suc)
  then show ?thesis
    by (simp add: filter_map comp_def del: upt_Suc)
qed

text \<open>
  The loop from index \<open>length pre\<close> on, when \<open>os.Stat\<close> succeeds for each of the
  remaining handles: iteration \<open>k + j\<close> looks at the handle \<open>rest ! j\<close>.
\<close>

lemma sweep_from:
  "FileFollowDuration (options t) = 0 \<Longrightarrow> tails t = pre @ rest \<Longrightarrow>
   (\<forall>j<length rest. \<exists>info. Stat (w (k + j)) (Filename (rest ! j)) = Inr info) \<Longrightarrow>
   \<exists>t'. unfollowOldFiles_loop w k (length pre) t = Some t' \<and>
      tails t' = pre @ map (\<lambda>j. rest ! j)
        (filter (\<lambda>j. \<not> modified_before (w (k + j)) (Filename (rest ! j))) [0..<length rest]) \<and>
      stopped t' = stopped t @ map (\<lambda>j. addr (rest ! j))
        (filter (\<lambda>j. modified_before (w (k + j)) (Filename (rest ! j))) [0..<length rest])"
proof (induction rest arbitrary: pre t k)
  case Nil
  then show ?case
    by (subst unfollowOldFiles_loop.simps) simp
next
  case (Cons x xs)
  have tl: "tails t = pre @ x # xs"
    by (rule Cons.prems(2))
  then have at: "tails t ! length pre = x" "length pre < length (tails t)"
    by simp_all
  from Cons.prems(3) obtain info where info: "Stat (w k) (Filename x) = Inr info"
    by fastforce
  have later: "\<forall>j<length xs. \<exists>info. Stat (w (Suc k + j)) (Filename (xs ! j)) = Inr info"
  proof (intro allI impI)
    fix j assume "j < length xs"
    then have "Suc j < length (x # xs)"
      by simp
    with Cons.prems(3) have "\<exists>info. Stat (w (k + Suc j)) (Filename ((x # xs) ! Suc j)) = Inr info"
      by blast
    then show "\<exists>info. Stat (w (Suc k + j)) (Filename (xs ! j)) = Inr info"
      by simp
  qed
  show ?case
  proof (cases "ModTime info < Now (w k)")
    case True
    define t1 where "t1 = (logln (Debugln (''unfollow: '' @ Name info)) t)
      \<lparr>stopped := stopped t @ [addr x], tails := delete_at (length pre) (tails t)\<rparr>"
    have t1: "tails t1 = pre @ xs" "stopped t1 = stopped t @ [addr x]"
      "FileFollowDuration (options t1) = 0"
      using Cons.prems(1) by (simp_all add: t1_def tl delete_at_eq logln_def)
    have step: "unfollowOldFiles_loop w k (length pre) t =
        unfollowOldFiles_loop w (Suc k) (length pre) t1"
      using info True at Cons.prems(1)
      by (subst unfollowOldFiles_loop.simps)
         (simp add: t1_def isOlderThanADay_def time_Sub_pos_iff)
    have old: "modified_before (w k) (Filename x)"
      using info True by (simp add: modified_before_def)
    from Cons.IH [OF t1(3) t1(1) later] step t1(2) old show ?thesis
      by (simp add: indices_Suc del: upt_Suc)
  next
    case False
    define t1 where "t1 = logln (Debugln (''follow: '' @ Name info)) t"
    have t1: "tails t1 = (pre @ [x]) @ xs" "stopped t1 = stopped t"
      "FileFollowDuration (options t1) = 0"
      using Cons.prems(1) by (simp_all add: t1_def tl logln_def)
    have step: "unfollowOldFiles_loop w k (length pre) t =
        unfollowOldFiles_loop w (Suc k) (length (pre @ [x])) t1"
      using info False at Cons.prems(1)
      by (subst unfollowOldFiles_loop.simps)
         (simp add: t1_def isOlderThanADay_def time_Sub_pos_iff)
    have young: "\<not> modified_before (w k) (Filename x)"
      using info False by (simp add: modified_before_def)
    from Cons.IH [OF t1(3) t1(1) later] step t1(2) young show ?thesis
      by (simp add: indices_Suc del: upt_Suc)
  qed
qed

lemmas loop_induct = unfollowOldFiles_loop.raw_induct [rotated 1, consumes 1, case_names step]

lemma loop_stuck:
  assumes "unfollowOldFiles_loop w k i t = Some r"
  shows "\<not> (i < length (tails t) \<and> (\<forall>k. \<exists>err. Stat (w k) (Filename (tails t ! i)) = Inl err))"
  using assms
proof (induction w k i t r rule: loop_induct)
  case (step f w k i t r)
  show ?case
  proof
    assume stuck: "i < length (tails t) \<and> (\<forall>k. \<exists>err. Stat (w k) (Filename (tails t ! i)) = Inl err)"
    then obtain err where err: "Stat (w k) (Filename (tails t ! i)) = Inl err"
      by blast
    with step(2) stuck have "f w (Suc k) i (logln (Errorln (''failed to get file info. '' @ err)) t) = Some r"
      by simp
    from step(1) [OF this] stuck show False
      by (simp add: logln_def)
  qed
qed




lemma logln_fields [simp]:
  "tails (logln m t) = tails t" "stopped (logln m t) = stopped t"
  "options (logln m t) = options t" "looping (logln m t) = looping t"
  by (simp_all add: logln_def)

lemma foldl_logln_fields:
  "tails (foldl (\<lambda>s tl. logln (g tl) s) t xs) = tails t"
  "stopped (foldl (\<lambda>s tl. logln (g tl) s) t xs) = stopped t"
  by (induction xs arbitrary: t) simp_all

lemma unfollowOldFiles_Some:
  "unfollowOldFiles_loop w 0 0 (logln (Debugln ''starting...unfollow old files'') t) = Some t1 \<Longrightarrow>
   \<exists>t'. unfollowOldFiles w t = Some (None, t') \<and> tails t' = tails t1 \<and> stopped t' = stopped t1"
  by (simp add: unfollowOldFiles_def foldl_logln_fields)

lemma unfollowOldFiles_None:
  "unfollowOldFiles_loop w 0 0 (logln (Debugln ''starting...unfollow old files'') t) = None \<Longrightarrow>
   unfollowOldFiles w t = None"
  by (simp add: unfollowOldFiles_def)



section \<open>Remove events\<close>

text \<open>
  Claim C1 at a concrete run. \<open>current.log\<close> is followed after its \<open>Create\<close> event; the
  file is then deleted and its \<open>Remove\<close> event processed. \<open>Stop\<close> is called on the tailer
  (address 0), but \<open>t.tails\<close> still holds the handle for the path: the slice assigned in
  \<open>unfollowFile\<close> is \<open>append(t.tails[:i], t.tails[i:]...)\<close>, the slice it started from.
\<close>

theorem remove_event_keeps_handle:
  "map Filename (tails following_current) = [current_log] \<and>
   map Filename (tails (on_event (env_gone 3) following_current (removed current_log))) =
     [current_log] \<and>
   stopped (on_event (env_gone 3) following_current (removed current_log)) = [0]"
  by code_simp

section \<open>Create events\<close>

text \<open>
  Claim C2, as the code has it. The pool is a slice and nothing looks a path up in it:
  a \<open>Create\<close> event for a path that is not ignored and whose file opens appends one new
  handle for that path, in new-mode and with a fresh tailer, whatever the pool already
  holds.
\<close>

theorem create_event_appends:
  "EvOp ev = Create \<Longrightarrow> \<not> fst (ignore e t (EvPath ev)) \<Longrightarrow>
   TailFile e (EvPath ev) = None \<Longrightarrow>
   tails (on_event e t ev) =
     tails t @ [\<lparr>Filename = EvPath ev, Cfg = tail_config True (PollChanges (options t)),
                 addr = fresh t\<rparr>]"
  by (simp add: on_event_Create_tails)

text \<open>The event at a pool that already follows the path: a second handle is appended.\<close>

theorem create_event_appends_witness:
  "tails (on_event (env_at 2 1) following_current (created current_log)) =
     [\<lparr>Filename = current_log, Cfg = tail_config True False, addr = 0\<rparr>,
      \<lparr>Filename = current_log, Cfg = tail_config True False, addr = 1\<rparr>]"
proof -
  have a: "EvOp (created current_log) = Create"
    by (simp add: created_def)
  have b: "\<not> fst (ignore (env_at 2 1) following_current (EvPath (created current_log)))"
    by code_simp
  have c: "TailFile (env_at 2 1) (EvPath (created current_log)) = None"
    by code_simp
  have d: "tails following_current =
      [\<lparr>Filename = current_log, Cfg = tail_config True False, addr = 0\<rparr>]"
    "fresh following_current = 1" "PollChanges (options following_current) = False"
    "EvPath (created current_log) = current_log"
    by code_simp+
  show ?thesis
    using create_event_appends [OF a b c] d by simp
qed

text \<open>
  Claim C2 as stated fails: after two \<open>Create\<close> events for the same path the pool holds
  two handles for it.
\<close>

theorem create_twice_counterexample:
  "\<not> distinct (map Filename (tails
      (event_loop [(env_at 2 1, created current_log), (env_at 2 1, created current_log)]
         week_trail)))"
  by code_simp

section \<open>Starting positions\<close>

text \<open>
  Claim C6. Every handle that \<open>Follow\<close> adds for the initial listing is for a listed
  file and is opened with \<open>Location\<close> at offset 0 from the end of the file, so reading
  starts at the size the file has then; every handle that a \<open>Create\<close> event adds is for
  the event's path and is opened without a \<open>Location\<close>, so reading starts at offset 0.
\<close>

theorem followers_start_mode:
  "(\<exists>new. tails (snd (Follow w (Inr files) t)) = tails t @ new \<and>
      (\<forall>tl\<in>set new. Filename tl \<in> set files \<and>
         Location (Cfg tl) = Some \<lparr>Offset = 0, Whence = 2\<rparr> \<and>
         start_offset (Cfg tl) sz = sz)) \<and>
   (EvOp ev = Create \<longrightarrow>
     (\<exists>new. tails (on_event e t ev) = tails t @ new \<and>
        (\<forall>tl\<in>set new. Filename tl = EvPath ev \<and> Location (Cfg tl) = None \<and>
           start_offset (Cfg tl) sz = 0)))"
proof (intro conjI impI)
  obtain new where new: "tails (follow_files w 0 files (logln (Infoln ''Sauron is now watching'') t)) =
      tails t @ new"
    "\<forall>tl\<in>set new. Filename tl \<in> set files \<and> Cfg tl = tail_config False (PollChanges (options t))"
    using follow_files_tails [of w 0 files "logln (Infoln ''Sauron is now watching'') t"]
    by (auto simp: logln_def)
  show "\<exists>new. tails (snd (Follow w (Inr files) t)) = tails t @ new \<and>
      (\<forall>tl\<in>set new. Filename tl \<in> set files \<and>
         Location (Cfg tl) = Some \<lparr>Offset = 0, Whence = 2\<rparr> \<and>
         start_offset (Cfg tl) sz = sz)"
    using new by (intro exI [of _ new]) (simp add: Follow_def tail_config_def start_offset_def)
next
  assume "EvOp ev = Create"
  then show "\<exists>new. tails (on_event e t ev) = tails t @ new \<and>
        (\<forall>tl\<in>set new. Filename tl = EvPath ev \<and> Location (Cfg tl) = None \<and>
           start_offset (Cfg tl) sz = 0)"
    by (auto simp: on_event_Create_tails tail_config_def start_offset_def split: option.splits)
qed

text \<open>One listed file and one created file, each of 100 bytes.\<close>

theorem followers_start_mode_witness:
  "map (\<lambda>tl. (Filename tl, Location (Cfg tl), start_offset (Cfg tl) 100))
     (tails (snd (Follow (\<lambda>k. env_at 2 1) (Inr [current_log]) week_trail))) =
     [(current_log, Some \<lparr>Offset = 0, Whence = 2\<rparr>, 100)] \<and>
   map (\<lambda>tl. (Filename tl, Location (Cfg tl), start_offset (Cfg tl) 100))
     (tails (on_event (env_at 2 1) week_trail (created current_log))) =
     [(current_log, None, 0)]"
proof -
  have a: "tails week_trail = []"
    by code_simp
  have b: "length (tails (snd (Follow (\<lambda>k. env_at 2 1) (Inr [current_log]) week_trail))) = 1"
    by code_simp
  have c: "length (tails (on_event (env_at 2 1) week_trail (created current_log))) = 1"
    by code_simp
  have d: "EvOp (created current_log) = Create" "EvPath (created current_log) = current_log"
    by (simp_all add: created_def)
  from a b c d followers_start_mode [of "\<lambda>k. env_at 2 1" "[current_log]" week_trail 100
      "created current_log" "env_at 2 1"]
  show ?thesis
    by (auto simp: length_Suc_conv)
qed

section \<open>The result of Follow\<close>

text \<open>
  Claim C7. \<open>Follow\<close> returns an error exactly when \<open>Walk\<close> failed, and then it is the
  error of \<open>Walk\<close>; in that case the pool is as before, no tailer was created and the
  event loop was not started. After a successful listing the result is nil.
\<close>

theorem Follow_fails_iff_walk_fails:
  "(fst (Follow w walk t) \<noteq> None) = isl walk \<and>
   fst (Follow w (Inl err) t) = Some err \<and>
   tails (snd (Follow w (Inl err) t)) = tails t \<and>
   fresh (snd (Follow w (Inl err) t)) = fresh t \<and>
   looping (snd (Follow w (Inl err) t)) = looping t \<and>
   fst (Follow w (Inr files) t) = None"
  by (cases walk) (simp_all add: Follow_def logln_def)

section \<open>Lines and the handler\<close>

text \<open>
  Claim C8, as the code has it. A line of the tailing unit, with or without an error,
  is handed to the handler as a \<open>Line\<close> with the path of the file and the same \<open>Err\<close>;
  the loop over the lines changes neither the pool nor the stopped tailers, so when the
  channel is closed and the goroutine returns, the handle is still in \<open>t.tails\<close>.
\<close>

theorem tail_error_surfaced:
  "calls (followFile_lines p h (ls @ [l]) t) =
     calls (followFile_lines p h ls t) @ [(newLine p l, h (newLine p l))] \<and>
   Path (newLine p l) = p \<and> Err (newLine p l) = tail_Err l \<and>
   tails (followFile_lines p h (ls @ [l]) t) = tails t \<and>
   stopped (followFile_lines p h (ls @ [l]) t) = stopped t"
  by (simp add: followFile_lines_eq newLine_def)

text \<open>
  Claim C8 as stated fails: the follower of \<open>current.log\<close> receives one line with an
  error and then the end of the channel; the handler saw the error, and the pool still
  holds the handle.
\<close>

theorem tail_error_counterexample:
  "map (\<lambda>c. Err (fst c)) (calls (followFile_lines current_log (\<lambda>l. None) [error_line] following_current)) =
     [Some ''tail: read failed''] \<and>
   map Filename (tails (followFile_lines current_log (\<lambda>l. None) [error_line] following_current)) =
     [current_log]"
  by code_simp

text \<open>
  Claim C9, as the code has it. The handler is called once for each line, in the order
  of the lines, each call finished before the next line is taken; whatever it returns is
  dropped: the loop goes on with the next line and nothing is written to the log.
\<close>

theorem handler_called_in_order:
  "calls (followFile_lines p h ls t) = calls t @ map (\<lambda>l. (newLine p l, h (newLine p l))) ls \<and>
   log (followFile_lines p h ls t) = log t"
  by (simp add: followFile_lines_eq)

text \<open>
  Claim C9 as stated fails where it says the error is logged: the handler returns an
  error and the log is what it was.
\<close>

theorem handler_error_counterexample:
  "map snd (calls (followFile_lines current_log (\<lambda>l. Some ''handler failed'') [error_line] following_current)) =
     [Some ''handler failed''] \<and>
   log (followFile_lines current_log (\<lambda>l. Some ''handler failed'') [error_line] following_current) =
     log following_current"
  by code_simp

section \<open>The sweep\<close>

text \<open>
  Claim C3, as the code has it. With \<open>FileFollowDuration\<close> equal to 0, a sweep during
  which \<open>os.Stat\<close> succeeds for the file of every tracked handle returns nil. It removes
  from the pool exactly the handles whose file was modified before the current time
  and calls \<open>Stop\<close> once on the tailer of each of them, in the order of the pool; the
  other handles stay in the pool, in their order. When every file was modified before
  the current time the pool is left empty and every tailer was stopped once.
  Iteration \<open>j\<close> of the loop looks at handle \<open>j\<close> of the pool as it was on entry.
\<close>

theorem sweep_zero_threshold:
  "FileFollowDuration (options t) = 0 \<Longrightarrow>
   (\<forall>j<length (tails t). \<exists>info. Stat (w j) (Filename (tails t ! j)) = Inr info) \<Longrightarrow>
   \<exists>t'. unfollowOldFiles w t = Some (None, t') \<and>
      tails t' = map (\<lambda>j. tails t ! j)
        (filter (\<lambda>j. \<not> modified_before (w j) (Filename (tails t ! j)))
           [0..<length (tails t)]) \<and>
      stopped t' = stopped t @ map (\<lambda>j. addr (tails t ! j))
        (filter (\<lambda>j. modified_before (w j) (Filename (tails t ! j)))
           [0..<length (tails t)]) \<and>
      ((\<forall>j<length (tails t). modified_before (w j) (Filename (tails t ! j))) \<longrightarrow>
         tails t' = [] \<and> stopped t' = stopped t @ map addr (tails t))"
proof -
  assume zero: "FileFollowDuration (options t) = 0"
    and stat: "\<forall>j<length (tails t). \<exists>info. Stat (w j) (Filename (tails t ! j)) = Inr info"
  let ?t0 = "logln (Debugln ''starting...unfollow old files'') t"
  let ?old = "\<lambda>j. modified_before (w j) (Filename (tails t ! j))"
  have "\<exists>t'. unfollowOldFiles_loop w 0 (length ([]::Tail list)) ?t0 = Some t' \<and>
      tails t' = [] @ map (\<lambda>j. tails t ! j)
        (filter (\<lambda>j. \<not> modified_before (w (0 + j)) (Filename (tails t ! j)))
           [0..<length (tails t)]) \<and>
      stopped t' = stopped ?t0 @ map (\<lambda>j. addr (tails t ! j))
        (filter (\<lambda>j. modified_before (w (0 + j)) (Filename (tails t ! j)))
           [0..<length (tails t)])"
    using zero stat by (intro sweep_from) simp_all
  then obtain t1 where t1: "unfollowOldFiles_loop w 0 0 ?t0 = Some t1"
    "tails t1 = map (\<lambda>j. tails t ! j) (filter (\<lambda>j. \<not> ?old j) [0..<length (tails t)])"
    "stopped t1 = stopped t @ map (\<lambda>j. addr (tails t ! j))
       (filter ?old [0..<length (tails t)])"
    by auto
  from unfollowOldFiles_Some [OF t1(1)] obtain t' where t':
    "unfollowOldFiles w t = Some (None, t')" "tails t' = tails t1" "stopped t' = stopped t1"
    by blast
  have "tails t' = [] \<and> stopped t' = stopped t @ map addr (tails t)"
    if all: "\<forall>j<length (tails t). ?old j"
  proof -
    from all have "filter ?old [0..<length (tails t)] = [0..<length (tails t)]"
      "filter (\<lambda>j. \<not> ?old j) [0..<length (tails t)] = []"
      by (simp_all add: filter_empty_conv)
    moreover have "map (\<lambda>j. addr (tails t ! j)) [0..<length (tails t)] = map addr (tails t)"
      by (simp add: map_equality_iff)
    ultimately show ?thesis
      using t' t1 by simp
  qed
  with t' t1 show ?thesis
    by auto
qed

text \<open>
  The sweep of the pool that follows \<open>a.log\<close> and \<open>b.log\<close>. When \<open>a.log\<close> was modified at
  the current time and \<open>b.log\<close> before it, the handle of \<open>a.log\<close> stays and the tailer
  of \<open>b.log\<close> (address 1) is stopped; when both were modified before the current time
  the pool is left empty and both tailers are stopped.
\<close>

theorem sweep_zero_threshold_witness:
  "map_option (\<lambda>r. (fst r, map Filename (tails (snd r)), stopped (snd r)))
     (unfollowOldFiles (\<lambda>k. env_files 9 [(a_log, 9), (b_log, 1)]) two_trail) =
     Some (None, [a_log], [1]) \<and>
   map_option (\<lambda>r. (fst r, map Filename (tails (snd r)), stopped (snd r)))
     (unfollowOldFiles (\<lambda>k. env_at 9 1) two_trail) = Some (None, [], [0, 1])"
proof -
  let ?e = "env_files 9 [(a_log, 9), (b_log, 1)]"
  have a: "FileFollowDuration (options two_trail) = 0"
    by code_simp
  have b: "[0..<length (tails two_trail)] = [0, Suc 0]"
    "Filename (tails two_trail ! 0) = a_log" "Filename (tails two_trail ! Suc 0) = b_log"
    "addr (tails two_trail ! 0) = 0" "addr (tails two_trail ! Suc 0) = 1"
    "stopped two_trail = []" "length (tails two_trail) = 2"
    by code_simp+
  have c: "Stat ?e a_log = Inr \<lparr>Name = Base a_log, ModTime = 9\<rparr>"
    "Stat ?e b_log = Inr \<lparr>Name = Base b_log, ModTime = 1\<rparr>"
    "\<not> modified_before ?e a_log" "modified_before ?e b_log"
    "modified_before (env_at 9 1) a_log" "modified_before (env_at 9 1) b_log"
    by code_simp+
  have d: "\<forall>j<length (tails two_trail). \<exists>info.
      Stat ?e (Filename (tails two_trail ! j)) = Inr info"
    using b c by (auto simp: less_Suc_eq numeral_2_eq_2)
  have e: "\<forall>j<length (tails two_trail). \<exists>info.
      Stat (env_at 9 1) (Filename (tails two_trail ! j)) = Inr info"
    by (simp add: env_at_def)
  from sweep_zero_threshold [of two_trail "\<lambda>k. ?e", OF a d]
    sweep_zero_threshold [of two_trail "\<lambda>k. env_at 9 1", OF a e] b c
  show ?thesis
    by auto
qed

text \<open>
  Claim C3 as stated fails: a file whose modification time is the current time is not
  older than 0, and the sweep returns with its handle still in the pool.
\<close>

theorem sweep_zero_threshold_counterexample:
  "map_option (\<lambda>r. map Filename (tails (snd r))) (unfollowOldFiles (\<lambda>k. env_at 9 9) sweep_trail) =
     Some [current_log]"
  by code_simp

text \<open>
  Claim C10 at a concrete run: the pool still holds the handle of the deleted file
  \<open>current.log\<close> (see C1), every \<open>os.Stat\<close> of it fails, and the sweep never returns. The
  branch for a failed \<open>os.Stat\<close> logs the error and leaves both the index and the pool
  as they are, so the loop looks at the same handle again.
\<close>

theorem sweep_after_remove_never_returns:
  "map Filename (tails after_remove) = [current_log] \<and>
   unfollowOldFiles (\<lambda>k. env_gone (4 + int k)) after_remove = None"
proof -
  let ?w = "\<lambda>k. env_gone (4 + int k)"
  let ?t0 = "logln (Debugln ''starting...unfollow old files'') after_remove"
  have a: "map Filename (tails after_remove) = [current_log]"
    by code_simp
  then have b: "0 < length (tails ?t0)"
    by (auto simp: logln_def)
  have c: "\<forall>k. \<exists>err. Stat (?w k) (Filename (tails ?t0 ! 0)) = Inl err"
    by (simp add: env_gone_def)
  have "unfollowOldFiles_loop ?w 0 0 ?t0 = None"
  proof (cases "unfollowOldFiles_loop ?w 0 0 ?t0")
    case (Some r)
    from loop_stuck [OF this] b c show ?thesis by blast
  qed simp
  with a show ?thesis
    by (simp add: unfollowOldFiles_None)
qed

section \<open>End\<close>




end
